theory Spec2Isabelle
  imports Complex_Main "HOL-Library.Stream" "HOL-Library.Sublist"
begin

section \<open>Synthetic sales generator (sales/ml\_data\_generator.py)\<close>

text \<open>
  The embedding follows \<^verbatim>\<open>SalesDataGenerator\<close> function by function.
  Conventions used throughout:
  \<^item> a Python \<^verbatim>\<open>float\<close> is the real number it denotes (\<^typ>\<open>real\<close>); the one place
    where binary rounding decides a statement, \<^verbatim>\<open>float(total_revenue)\<close>, is modelled by
    round-to-nearest on 53 bits;
  \<^item> a \<^verbatim>\<open>Decimal\<close> is an exact rational (\<^typ>\<open>rat\<close>); the 28-digit context precision is
    never reached by a product of a quantity in 1..3 and a price column;
  \<^item> a \<^verbatim>\<open>datetime\<close> is its number of microseconds since 0001-01-01T00:00:00, and its calendar
    attributes are computed by the algorithms of CPython's \<^verbatim>\<open>datetime\<close> module;
  \<^item> the module \<^verbatim>\<open>random\<close> is a stream of draws of \<^verbatim>\<open>random.random()\<close>, each in [0, 1);
  \<^item> every call of the persistence layer may raise: a stream of booleans says which calls do.
\<close>

subsection \<open>Exceptions\<close>

datatype error = ZeroDivisionError | ValueError | IndexError | DatabaseError

subsection \<open>datetime and timedelta\<close>

type_synonym datetime = int
type_synonym timedelta = int

definition us_per_day :: int where
  "us_per_day = 86400000000"

definition timedelta :: "int \<Rightarrow> int \<Rightarrow> int \<Rightarrow> timedelta" where
  "timedelta days hours minutes = ((days * 24 + hours) * 60 + minutes) * 60000000"

text \<open>\<^verbatim>\<open>timedelta.days\<close>: a timedelta is normalised with a non-negative remainder, so the
  attribute is the floor of the quotient.\<close>

definition td_days :: "timedelta \<Rightarrow> int" where
  "td_days t = t div us_per_day"

definition toordinal :: "datetime \<Rightarrow> int" where
  "toordinal d = d div us_per_day + 1"

definition is_leap :: "int \<Rightarrow> bool" where
  "is_leap y = (y mod 4 = 0 \<and> (y mod 100 \<noteq> 0 \<or> y mod 400 = 0))"

definition days_before_year :: "int \<Rightarrow> int" where
  "days_before_year year = (let y = year - 1 in y * 365 + y div 4 - y div 100 + y div 400)"

definition DAYS_IN_MONTH :: "int list" where
  "DAYS_IN_MONTH = [-1, 31, 28, 31, 30, 31, 30, 31, 31, 30, 31, 30, 31]"

definition DAYS_BEFORE_MONTH :: "int list" where
  "DAYS_BEFORE_MONTH = [-1, 0, 31, 59, 90, 120, 151, 181, 212, 243, 273, 304, 334]"

definition days_before_month :: "int \<Rightarrow> int \<Rightarrow> int" where
  "days_before_month year m =
     DAYS_BEFORE_MONTH ! nat m + (if m > 2 \<and> is_leap year then 1 else 0)"

definition ymd2ord :: "int \<Rightarrow> int \<Rightarrow> int \<Rightarrow> int" where
  "ymd2ord year m d = days_before_year year + days_before_month year m + d"

definition ord2ymd :: "int \<Rightarrow> int \<times> int \<times> int" where
  "ord2ymd ordinal =
     (let n = ordinal - 1;
          n400 = n div 146097; n = n mod 146097;
          year = n400 * 400 + 1;
          n100 = n div 36524; n = n mod 36524;
          n4 = n div 1461; n = n mod 1461;
          n1 = n div 365; n = n mod 365;
          year = year + n100 * 100 + n4 * 4 + n1
      in if n1 = 4 \<or> n100 = 4 then (year - 1, 12, 31)
         else
           let leapyear = (n1 = 3 \<and> (n4 \<noteq> 24 \<or> n100 = 3));
               m = (n + 50) div 32;
               preceding = DAYS_BEFORE_MONTH ! nat m + (if m > 2 \<and> leapyear then 1 else 0)
           in if preceding > n
              then let m' = m - 1;
                       preceding' = preceding
                         - (DAYS_IN_MONTH ! nat m' + (if m' = 2 \<and> leapyear then 1 else 0))
                   in (year, m', n - preceding' + 1)
              else (year, m, n - preceding + 1))"

definition dt_year :: "datetime \<Rightarrow> int" where
  "dt_year d = fst (ord2ymd (toordinal d))"

definition dt_month :: "datetime \<Rightarrow> int" where
  "dt_month d = fst (snd (ord2ymd (toordinal d)))"

definition dt_day :: "datetime \<Rightarrow> int" where
  "dt_day d = snd (snd (ord2ymd (toordinal d)))"

text \<open>\<^verbatim>\<open>date.weekday()\<close>: Monday is 0 and Sunday is 6.\<close>

definition dt_weekday :: "datetime \<Rightarrow> int" where
  "dt_weekday d = (toordinal d + 6) mod 7"

text \<open>Building a datetime at midnight from a calendar date.\<close>

definition mk_date :: "int \<Rightarrow> int \<Rightarrow> int \<Rightarrow> datetime" where
  "mk_date year m d = (ymd2ord year m d - 1) * us_per_day"

subsection \<open>The module random\<close>

type_synonym rng = "real stream"

definition unit_draws :: "rng \<Rightarrow> bool" where
  "unit_draws rs = (\<forall>r \<in> sset rs. 0 \<le> r \<and> r < 1)"

text \<open>\<^verbatim>\<open>random.randint(a, b)\<close>: an integer of a..b; one draw picks it.\<close>

definition randint :: "int \<Rightarrow> int \<Rightarrow> rng \<Rightarrow> int \<times> rng" where
  "randint a b rs = (a + \<lfloor>shd rs * real_of_int (b - a + 1)\<rfloor>, stl rs)"

text \<open>\<^verbatim>\<open>random.uniform(a, b)\<close> is \<^verbatim>\<open>a + (b - a) * self.random()\<close>.\<close>

definition uniform :: "real \<Rightarrow> real \<Rightarrow> rng \<Rightarrow> real \<times> rng" where
  "uniform a b rs = (a + (b - a) * shd rs, stl rs)"

text \<open>\<^verbatim>\<open>int(x)\<close> on a float truncates towards zero.\<close>

definition py_int :: "real \<Rightarrow> int" where
  "py_int x = (if 0 \<le> x then \<lfloor>x\<rfloor> else \<lceil>x\<rceil>)"

subsection \<open>The generator and its demand curve\<close>

record generator =
  start_date :: datetime
  end_date :: datetime

text \<open>\<^verbatim>\<open>__init__\<close> reads the clock twice, \<open>now1\<close> first.\<close>

definition init :: "datetime \<Rightarrow> datetime \<Rightarrow> generator" where
  "init now1 now2 = \<lparr>start_date = now1 - timedelta 730 0 0, end_date = now2\<rparr>"

definition get_seasonal_multiplier :: "datetime \<Rightarrow> real" where
  "get_seasonal_multiplier date =
     (let m = dt_month date
      in if m = 12 then 1.5
         else if m \<in> set [1, 2] then 0.7
         else if m \<in> set [7, 8] then 1.3
         else if m \<in> set [6, 11] then 1.2
         else 1.0)"

definition get_trend_multiplier :: "generator \<Rightarrow> datetime \<Rightarrow> error + real" where
  "get_trend_multiplier g date =
     (let days_from_start = td_days (date - start_date g);
          total_days = td_days (end_date g - start_date g)
      in if total_days = 0 then Inl ZeroDivisionError
         else let progress = real_of_int days_from_start / real_of_int total_days
              in Inr (1.0 + progress * 0.5))"

definition get_weekday_multiplier :: "datetime \<Rightarrow> real" where
  "get_weekday_multiplier date =
     (let weekday = dt_weekday date
      in if weekday \<in> set [5, 6] then 1.3
         else if weekday = 4 then 1.1
         else 1.0)"

definition generate_daily_sales_count :: "generator \<Rightarrow> datetime \<Rightarrow> rng \<Rightarrow> error + int \<times> rng" where
  "generate_daily_sales_count g date rs =
     (let (base_sales, rs1) = randint 5 15 rs;
          seasonal = get_seasonal_multiplier date
      in case get_trend_multiplier g date of
           Inl e \<Rightarrow> Inl e
         | Inr trend \<Rightarrow>
             let weekday = get_weekday_multiplier date;
                 (random_factor, rs2) = uniform 0.8 1.2 rs1;
                 sales_count =
                   py_int (real_of_int base_sales * seasonal * trend * weekday * random_factor)
             in Inr (max 1 sales_count, rs2))"


subsection \<open>Catalog items and the persistence layer\<close>

text \<open>A \<^verbatim>\<open>Product\<close> instance in memory. \<open>popularity\<close> is the transient attribute
  \<^verbatim>\<open>_popularity\<close> (absent on an instance read from the database); \<open>category\<close> is the name of
  the related category, when there is one; \<open>rating\<close> and \<open>energy_kwh_per_year\<close> are the
  nullable columns of migration 0005.\<close>

record product =
  pk :: nat
  name :: string
  price :: rat
  stock :: int
  category :: "string option"
  brand :: "string option"
  warranty :: "string option"
  image_field :: string
  description :: string
  rating :: "rat option"
  energy_kwh_per_year :: "real option"
  popularity :: "real option"

record order =
  o_pk :: nat
  o_customer :: nat
  total_price :: rat
  status :: string
  created_at :: datetime
  updated_at :: datetime

record order_item =
  oi_order :: nat
  oi_product :: nat
  oi_quantity :: int
  oi_price :: rat

record database =
  orders :: "order list"
  order_items :: "order_item list"
  product_rows :: "nat \<rightharpoonup> product"
  next_order_pk :: nat

text \<open>What a call can observe and change outside its arguments: the database, the random
  source, and the outcome of each coming persistence call (\<open>True\<close>: the call raises).\<close>

record world =
  db :: database
  rnd :: rng
  faults :: "bool stream"

text \<open>\<^verbatim>\<open>product.save()\<close> writes the instance's columns to its row; the transient attribute is
  not a column. A call that raises leaves the database as it was.\<close>

definition save_product :: "product \<Rightarrow> 'a world_scheme \<Rightarrow> (error + unit) \<times> 'a world_scheme" where
  "save_product p w =
     (if shd (faults w) then (Inl DatabaseError, w\<lparr>faults := stl (faults w)\<rparr>)
      else (Inr (),
            w\<lparr>faults := stl (faults w),
              db := (db w)\<lparr>product_rows := (product_rows (db w))(pk p \<mapsto> p\<lparr>popularity := None\<rparr>)\<rparr>\<rparr>))"

subsection \<open>Metric backfill\<close>

definition lower_char :: "char \<Rightarrow> char" where
  "lower_char c =
     (let n = (of_char c :: nat) in if 65 \<le> n \<and> n \<le> 90 then char_of (n + 32) else c)"

definition lower :: "string \<Rightarrow> string" where
  "lower s = map lower_char s"

text \<open>\<^verbatim>\<open>random.choice(seq)\<close>: IndexError on an empty sequence.\<close>

definition choice :: "'a list \<Rightarrow> rng \<Rightarrow> error + 'a \<times> rng" where
  "choice seq rs =
     (if seq = [] then Inl IndexError
      else Inr (seq ! nat \<lfloor>shd rs * real (length seq)\<rfloor>, stl rs))"

text \<open>\<^verbatim>\<open>round(x, 2)\<close> rounds to the nearest hundredth, a tie to the even one; the result
  goes through \<^verbatim>\<open>str\<close> into a \<^verbatim>\<open>Decimal\<close>, so it is kept as a rational.\<close>

definition round_half_even :: "real \<Rightarrow> int" where
  "round_half_even x =
     (let f = \<lfloor>x\<rfloor>; d = x - real_of_int f
      in if d < 1 / 2 then f else if 1 / 2 < d then f + 1 else if even f then f else f + 1)"

definition py_round2 :: "real \<Rightarrow> rat" where
  "py_round2 x = rat_of_int (round_half_even (x * 100)) / 100"

text \<open>The first \<^verbatim>\<open>try\<close> block of \<^verbatim>\<open>_ensure_product_metrics\<close>, entered when the rating is
  unset.\<close>

definition derive_rating :: "product \<Rightarrow> rng \<Rightarrow> rat \<times> rng" where
  "derive_rating product rs =
     (let base = (case popularity product of
                    None \<Rightarrow> 3.5 + min 1.5 (real_of_rat (price product) / 2000.0)
                  | Some pop \<Rightarrow> 3.5 + (pop - 0.5) * 2.0);
          (u, rs1) = uniform (- 0.3) 0.3 rs
      in (max 0 (min 5 (py_round2 (base + u))), rs1))"

text \<open>The second \<^verbatim>\<open>try\<close> block, entered when the energy estimate is unset.\<close>

definition derive_energy :: "product \<Rightarrow> rng \<Rightarrow> error + int \<times> rng" where
  "derive_energy product rs =
     (let cat = (case category product of None \<Rightarrow> [] | Some n \<Rightarrow> lower n)
      in if sublist ''heladera'' cat then Inr (randint 250 550 rs)
         else if sublist ''lavarropas'' cat then Inr (randint 50 200 rs)
         else if sublist ''microondas'' cat then Inr (randint 50 120 rs)
         else if sublist ''televisor'' cat then Inr (randint 30 200 rs)
         else if sublist ''aire'' cat then Inr (randint 500 2000 rs)
         else if sublist ''cocina'' cat
           then (let (x, rs1) = randint 200 800 rs in choice [0, x] rs1)
         else Inr (randint 20 500 rs))"

text \<open>\<^verbatim>\<open>_ensure_product_metrics\<close>. The instance is mutated in place, so the model returns it.
  In this typed model the two derivations read well-typed attributes; the exceptions the
  source swallows are kept as the \<open>Inl\<close> branches, which leave the field unset.\<close>

definition ensure_product_metrics ::
    "product \<Rightarrow> 'a world_scheme \<Rightarrow> product \<times> 'a world_scheme" where
  "ensure_product_metrics product w =
     (let (p1, w1, updated1) =
            (if rating product = None
             then let (rating_val, rs1) = derive_rating product (rnd w)
                  in (product\<lparr>rating := Some rating_val\<rparr>, w\<lparr>rnd := rs1\<rparr>, True)
             else (product, w, False));
          (p2, w2, updated2) =
            (if energy_kwh_per_year p1 = None
             then case derive_energy p1 (rnd w1) of
                    Inl e \<Rightarrow> (p1, w1, updated1)
                  | Inr (energy, rs2) \<Rightarrow>
                      (p1\<lparr>energy_kwh_per_year := Some (real_of_int energy)\<rparr>, w1\<lparr>rnd := rs2\<rparr>, True)
             else (p1, w1, updated1))
      in if updated2 then (p2, snd (save_product p2 w2)) else (p2, w2))"

subsection \<open>Weighted sampling and the basket\<close>

text \<open>\<^verbatim>\<open>bisect.bisect_right(a, x, lo, hi)\<close>, the binary search of the standard library.\<close>

function bisect :: "real list \<Rightarrow> real \<Rightarrow> nat \<Rightarrow> nat \<Rightarrow> nat" where
  "bisect a x lo hi =
     (if lo < hi
      then let mid = (lo + hi) div 2
           in if x < a ! mid then bisect a x lo mid else bisect a x (mid + 1) hi
      else lo)"
  by pat_completeness auto
termination
  by (relation "measure (\<lambda>(a, x, lo, hi). hi - lo)") auto

fun accumulate_from :: "real \<Rightarrow> real list \<Rightarrow> real list" where
  "accumulate_from acc [] = []"
| "accumulate_from acc (x # xs) = (acc + x) # accumulate_from (acc + x) xs"

definition accumulate :: "real list \<Rightarrow> real list" where
  "accumulate ws = accumulate_from 0 ws"

text \<open>\<^verbatim>\<open>random.choices(population, weights=weights, k=k)\<close> as CPython (3.9 and later) has it:
  the cumulative weights, the two ValueErrors, and one draw per element. Reading
  \<^verbatim>\<open>cum_weights[-1]\<close> of an empty list is an IndexError.\<close>

definition choices :: "'a list \<Rightarrow> real list \<Rightarrow> nat \<Rightarrow> rng \<Rightarrow> error + 'a list \<times> rng" where
  "choices population weights k rs =
     (let n = length population;
          cum_weights = accumulate weights
      in if length cum_weights \<noteq> n then Inl ValueError
         else if cum_weights = [] then Inl IndexError
         else let total = last cum_weights
              in if total \<le> 0 then Inl ValueError
                 else let hi = n - 1
                      in Inr (map (\<lambda>r. population ! bisect cum_weights (r * total) 0 hi)
                                (stake k rs),
                              sdrop k rs))"

text \<open>One candidate line of a basket. \<open>item_product\<close> refers to the instance by its position
  in the list \<open>products\<close>: the same instance may be drawn twice.\<close>

record item_data =
  item_product :: nat
  item_quantity :: int
  item_price :: rat

definition popularity_weights :: "product list \<Rightarrow> real list" where
  "popularity_weights products =
     map (\<lambda>p. case popularity p of None \<Rightarrow> 0.5 | Some w \<Rightarrow> w) products"

fun order_lines :: "product list \<Rightarrow> nat list \<Rightarrow> rng \<Rightarrow> error + item_data list \<times> rng" where
  "order_lines products [] rs = Inr ([], rs)"
| "order_lines products (i # selected) rs =
     (case choices [1, 2, 3] [0.7, 0.2, 0.1] 1 rs of
        Inl e \<Rightarrow> Inl e
      | Inr (qs, rs1) \<Rightarrow>
          (case order_lines products selected rs1 of
             Inl e \<Rightarrow> Inl e
           | Inr (items, rs2) \<Rightarrow>
               Inr (\<lparr>item_product = i, item_quantity = qs ! 0,
                      item_price = price (products ! i)\<rparr> # items, rs2)))"

definition generate_order_items :: "product list \<Rightarrow> rng \<Rightarrow> error + item_data list \<times> rng" where
  "generate_order_items products rs =
     (case choices [1, 2, 3, 4] [0.5, 0.3, 0.15, 0.05] 1 rs of
        Inl e \<Rightarrow> Inl e
      | Inr (ns, rs1) \<Rightarrow>
          (let num_items = ns ! 0
           in case choices [0..<length products] (popularity_weights products)
                     (nat num_items) rs1 of
                Inl e \<Rightarrow> Inl e
              | Inr (selected_products, rs2) \<Rightarrow> order_lines products selected_products rs2))"

subsection \<open>The batch writer\<close>

text \<open>\<^verbatim>\<open>with transaction.atomic()\<close>: when the block raises, the database goes back to what it
  was on entry and the exception goes on.\<close>

definition atomic ::
    "('a world_scheme \<Rightarrow> (error + 'r) \<times> 'a world_scheme)
     \<Rightarrow> 'a world_scheme \<Rightarrow> (error + 'r) \<times> 'a world_scheme" where
  "atomic body w =
     (case body w of
        (Inl e, w') \<Rightarrow> (Inl e, w'\<lparr>db := db w\<rparr>)
      | (Inr r, w') \<Rightarrow> (Inr r, w'))"

text \<open>\<^verbatim>\<open>Order.objects.create(...)\<close>; the two timestamps are set by the model to the time of
  the call, \<open>now\<close>.\<close>

definition create_order ::
    "datetime \<Rightarrow> nat \<Rightarrow> rat \<Rightarrow> 'a world_scheme \<Rightarrow> (error + order) \<times> 'a world_scheme" where
  "create_order now customer order_total w =
     (if shd (faults w) then (Inl DatabaseError, w\<lparr>faults := stl (faults w)\<rparr>)
      else let ord = \<lparr>o_pk = next_order_pk (db w), o_customer = customer, total_price = order_total,
                       status = ''COMPLETED'', created_at = now, updated_at = now\<rparr>
           in (Inr ord,
               w\<lparr>faults := stl (faults w),
                 db := (db w)\<lparr>orders := orders (db w) @ [ord],
                              next_order_pk := Suc (next_order_pk (db w))\<rparr>\<rparr>))"

text \<open>\<^verbatim>\<open>Order.objects.filter(pk=...).update(created_at=..., updated_at=...)\<close>.\<close>

definition update_order_dates ::
    "nat \<Rightarrow> datetime \<Rightarrow> 'a world_scheme \<Rightarrow> (error + unit) \<times> 'a world_scheme" where
  "update_order_dates k order_date w =
     (if shd (faults w) then (Inl DatabaseError, w\<lparr>faults := stl (faults w)\<rparr>)
      else (Inr (),
            w\<lparr>faults := stl (faults w),
              db := (db w)\<lparr>orders :=
                map (\<lambda>ord. if o_pk ord = k
                            then ord\<lparr>created_at := order_date, updated_at := order_date\<rparr>
                            else ord) (orders (db w))\<rparr>\<rparr>))"

definition create_order_item ::
    "order \<Rightarrow> nat \<Rightarrow> int \<Rightarrow> rat \<Rightarrow> 'a world_scheme \<Rightarrow> (error + order_item) \<times> 'a world_scheme" where
  "create_order_item ord product_pk quantity unit_price w =
     (if shd (faults w) then (Inl DatabaseError, w\<lparr>faults := stl (faults w)\<rparr>)
      else let it = \<lparr>oi_order = o_pk ord, oi_product = product_pk, oi_quantity = quantity,
                      oi_price = unit_price\<rparr>
           in (Inr it,
               w\<lparr>faults := stl (faults w),
                 db := (db w)\<lparr>order_items := order_items (db w) @ [it]\<rparr>\<rparr>))"

text \<open>\<^verbatim>\<open>Order.objects.all().delete()\<close>; the line items go with their orders.\<close>

definition delete_all_orders :: "'a world_scheme \<Rightarrow> (error + unit) \<times> 'a world_scheme" where
  "delete_all_orders w =
     (if shd (faults w) then (Inl DatabaseError, w\<lparr>faults := stl (faults w)\<rparr>)
      else (Inr (), w\<lparr>faults := stl (faults w),
                      db := (db w)\<lparr>orders := [], order_items := []\<rparr>\<rparr>))"

text \<open>The local variables of \<^verbatim>\<open>generate_demo_data\<close> that the loops change, on top of the
  world: the instances of \<open>products\<close> (their stock is written in place) and the two
  counters.\<close>

record run_state = world +
  products :: "product list"
  total_orders :: int
  total_revenue :: rat

definition line_amount :: "item_data \<Rightarrow> rat" where
  "line_amount item = rat_of_int (item_quantity item) * item_price item"

text \<open>The body of the loop over \<^verbatim>\<open>items_data\<close>. A line whose creation raises is skipped;
  after a created line the stock of the instance is lowered and saved when it covers the
  quantity, and a failing \<^verbatim>\<open>save\<close> is swallowed.\<close>

definition create_item :: "order \<Rightarrow> item_data \<Rightarrow> run_state \<Rightarrow> run_state" where
  "create_item ord item s =
     (let i = item_product item;
          p = products s ! i
      in case atomic (create_order_item ord (pk p) (item_quantity item) (item_price item)) s of
           (Inl e, s1) \<Rightarrow> s1
         | (Inr it, s1) \<Rightarrow>
             if item_quantity item \<le> stock p
             then let p' = p\<lparr>stock := max 0 (stock p - item_quantity item)\<rparr>;
                      s2 = s1\<lparr>products := (products s1)[i := p']\<rparr>
                  in snd (save_product p' s2)
             else s1)"

fun create_items :: "order \<Rightarrow> item_data list \<Rightarrow> run_state \<Rightarrow> run_state" where
  "create_items ord [] s = s"
| "create_items ord (item # rest) s = create_items ord rest (create_item ord item s)"

text \<open>The second half of the body of the loop over \<^verbatim>\<open>range(daily_sales)\<close>, from the
  creation of the header on. \<open>Inl\<close> is an exception that leaves the loops, \<open>Inr\<close> the state
  at the end of the iteration (also after \<^verbatim>\<open>continue\<close>).\<close>

definition persist_order ::
    "datetime \<Rightarrow> nat \<Rightarrow> item_data list \<Rightarrow> rat \<Rightarrow> datetime \<Rightarrow> run_state \<Rightarrow> error + run_state" where
  "persist_order now customer items_data order_total order_date s =
     (case atomic (create_order now customer order_total) s of
        (Inl e, s1) \<Rightarrow> Inr s1
      | (Inr ord, s1) \<Rightarrow>
          (case update_order_dates (o_pk ord) order_date s1 of
             (Inl e, s2) \<Rightarrow> Inl e
           | (Inr u, s2) \<Rightarrow>
               let s3 = create_items ord items_data s2
               in Inr (s3\<lparr>total_orders := total_orders s3 + 1,
                          total_revenue := total_revenue s3 + order_total\<rparr>)))"

text \<open>The whole body: the draws, then the writes.\<close>

definition process_order ::
    "datetime \<Rightarrow> nat list \<Rightarrow> datetime \<Rightarrow> run_state \<Rightarrow> error + run_state" where
  "process_order now customers current_date s =
     (case choice customers (rnd s) of
        Inl e \<Rightarrow> Inl e
      | Inr (customer, rs1) \<Rightarrow>
          (case generate_order_items (products s) rs1 of
             Inl e \<Rightarrow> Inl e
           | Inr (items_data, rs2) \<Rightarrow>
               let order_total = sum_list (map line_amount items_data);
                   (h, rs3) = randint 8 20 rs2;
                   (m, rs4) = randint 0 59 rs3;
                   order_date = current_date + timedelta 0 h m
               in persist_order now customer items_data order_total order_date
                    (s\<lparr>rnd := rs4\<rparr>)))"

fun process_day :: "datetime \<Rightarrow> nat list \<Rightarrow> datetime \<Rightarrow> nat \<Rightarrow> run_state \<Rightarrow> error + run_state" where
  "process_day now customers current_date 0 s = Inr s"
| "process_day now customers current_date (Suc n) s =
     (case process_order now customers current_date s of
        Inl e \<Rightarrow> Inl e
      | Inr s' \<Rightarrow> process_day now customers current_date n s')"

text \<open>The loop \<^verbatim>\<open>while current_date <= self.end_date\<close>.\<close>

function run_days ::
    "generator \<Rightarrow> datetime \<Rightarrow> nat list \<Rightarrow> datetime \<Rightarrow> run_state \<Rightarrow> error + run_state" where
  "run_days g now customers current_date s =
     (if current_date \<le> end_date g
      then case generate_daily_sales_count g current_date (rnd s) of
             Inl e \<Rightarrow> Inl e
           | Inr (daily_sales, rs1) \<Rightarrow>
               (case process_day now customers current_date (nat daily_sales) (s\<lparr>rnd := rs1\<rparr>) of
                  Inl e \<Rightarrow> Inl e
                | Inr s' \<Rightarrow> run_days g now customers (current_date + timedelta 1 0 0) s')
      else Inr s)"
  by pat_completeness auto
termination
  by (relation "measure (\<lambda>(g, now, customers, d, s). nat (end_date g - d + 1))")
     (auto simp: timedelta_def)

subsection \<open>The summary and the entry point\<close>

text \<open>\<^verbatim>\<open>float(total_revenue)\<close>: the conversion of a \<^verbatim>\<open>Decimal\<close> to a binary64 number is
  correctly rounded, so the result is the multiple of the unit in the last place (53
  significant bits) nearest to the decimal, a tie going to the even one. Revenues are far
  from the overflow and underflow thresholds, which are left out.\<close>

fun bit_length :: "nat \<Rightarrow> nat" where
  "bit_length n = (if n = 0 then 0 else Suc (bit_length (n div 2)))"

definition pow2 :: "int \<Rightarrow> real" where
  "pow2 k = (if 0 \<le> k then 2 ^ nat k else 1 / 2 ^ nat (- k))"

text \<open>The exponent \<open>e\<close> with \<open>2 ^ e \<le> a < 2 ^ (e + 1)\<close>, for a positive \<open>a\<close>.\<close>

definition floor_log2 :: "real \<Rightarrow> int" where
  "floor_log2 a =
     (if 1 \<le> a then int (bit_length (nat \<lfloor>a\<rfloor>)) - 1
      else - int (bit_length (nat (\<lceil>1 / a\<rceil> - 1))))"

definition float_of_decimal :: "rat \<Rightarrow> real" where
  "float_of_decimal q =
     (if q = 0 then 0
      else let a = \<bar>real_of_rat q\<bar>;
               ulp = pow2 (floor_log2 a - 52)
           in sgn (real_of_rat q) * real_of_int (round_half_even (a / ulp)) * ulp)"

text \<open>\<^verbatim>\<open>strftime('%Y-%m-%d')\<close>, for a year of four digits.\<close>

definition digit_char :: "int \<Rightarrow> char" where
  "digit_char n = char_of (48 + n mod 10)"

definition strftime_ymd :: "datetime \<Rightarrow> string" where
  "strftime_ymd d =
     (let y = dt_year d; m = dt_month d; dd = dt_day d
      in [digit_char (y div 1000), digit_char (y div 100), digit_char (y div 10), digit_char y,
          CHR ''-'', digit_char (m div 10), digit_char m,
          CHR ''-'', digit_char (dd div 10), digit_char dd])"

text \<open>The dictionary that \<^verbatim>\<open>generate_demo_data\<close> returns.\<close>

record summary =
  r_total_orders :: int
  r_total_revenue :: real
  r_start_date :: string
  r_end_date :: string
  products_count :: nat
  customers_count :: nat

text \<open>The body of \<^verbatim>\<open>generate_demo_data\<close>. The two bootstrap calls are represented by their
  results, the instances \<open>products0\<close> and the customers; \<open>now\<close> is the wall clock that
  \<^verbatim>\<open>auto_now_add\<close> reads.\<close>

definition generate_demo_data_body ::
    "generator \<Rightarrow> datetime \<Rightarrow> bool \<Rightarrow> product list \<Rightarrow> nat list \<Rightarrow> world \<Rightarrow> error + run_state" where
  "generate_demo_data_body g now clear_existing products0 customers w =
     (case (if clear_existing then delete_all_orders w else (Inr (), w)) of
        (Inl e, w1) \<Rightarrow> Inl e
      | (Inr u, w1) \<Rightarrow>
          run_days g now customers (start_date g)
            \<lparr>db = db w1, rnd = rnd w1, faults = faults w1,
             products = products0, total_orders = 0, total_revenue = 0\<rparr>)"

text \<open>\<^verbatim>\<open>generate_demo_data\<close> under its decorator \<^verbatim>\<open>@transaction.atomic\<close>: the result, and the
  database once the call is over. An exception that leaves the body rolls the database back
  to what it was at the call; a normal return commits.\<close>

definition generate_demo_data ::
    "generator \<Rightarrow> datetime \<Rightarrow> bool \<Rightarrow> product list \<Rightarrow> nat list \<Rightarrow> world
     \<Rightarrow> (error + summary) \<times> database" where
  "generate_demo_data g now clear_existing products0 customers w =
     (case generate_demo_data_body g now clear_existing products0 customers w of
        Inl e \<Rightarrow> (Inl e, db w)
      | Inr s \<Rightarrow>
          (Inr \<lparr>r_total_orders = total_orders s,
                r_total_revenue = float_of_decimal (total_revenue s),
                r_start_date = strftime_ymd (start_date g),
                r_end_date = strftime_ymd (end_date g),
                products_count = length products0,
                customers_count = length customers\<rparr>,
           db s))"

subsection \<open>Invariants of a run\<close>


subsection \<open>Concrete inputs\<close>

text \<open>A generator constructed on 2026-03-05 at midnight: its window starts on 2024-03-05.\<close>

definition g_demo :: generator where
  "g_demo = init (mk_date 2026 3 5) (mk_date 2026 3 5)"

text \<open>The first seeded product, not yet rated, and a world holding its row, where every draw
  is 0.5 and no persistence call raises.\<close>

definition p_demo :: product where
  "p_demo = \<lparr>pk = 1, name = ''Heladera No Frost 320L'', price = 1500, stock = 2,
              category = Some ''Heladeras'', brand = Some ''Generic'', warranty = None,
              image_field = ''products/placeholder.png'',
              description = ''Producto demo: Heladera No Frost 320L'',
              rating = None, energy_kwh_per_year = None, popularity = Some 0.95\<rparr>"

definition db_demo :: database where
  "db_demo = \<lparr>orders = [], order_items = [],
               product_rows = [1 \<mapsto> p_demo\<lparr>popularity := None\<rparr>], next_order_pk = 1\<rparr>"

definition w_demo :: world where
  "w_demo = \<lparr>db = db_demo, rnd = sconst (1 / 2), faults = sconst False\<rparr>"


definition db_with :: "product \<Rightarrow> database" where
  "db_with p = \<lparr>orders = [], order_items = [],
                 product_rows = [pk p \<mapsto> p\<lparr>popularity := None\<rparr>], next_order_pk = 1\<rparr>"

definition world_with :: "product \<Rightarrow> real list \<Rightarrow> bool list \<Rightarrow> world" where
  "world_with p draws fs = \<lparr>db = db_with p, rnd = draws @- sconst 0, faults = fs @- sconst True\<rparr>"

section \<open>Properties\<close>

subsection \<open>Calendar facts\<close>

lemma toordinal_mk_date: "toordinal (mk_date y m d) = ymd2ord y m d"
  by (simp add: toordinal_def mk_date_def us_per_day_def)

lemma dt_weekday_range: "0 \<le> dt_weekday d \<and> dt_weekday d \<le> 6"
  by (simp add: dt_weekday_def)

lemmas calendar_defs = dt_month_def dt_weekday_def dt_year_def dt_day_def toordinal_mk_date
  ymd2ord_def days_before_year_def days_before_month_def DAYS_BEFORE_MONTH_def DAYS_IN_MONTH_def
  is_leap_def ord2ymd_def Let_def

subsection \<open>The demand curve\<close>

text \<open>Claim C8. For every date, the seasonal multiplier is 1.5 in December, 0.7 in January and
  February, 1.3 in July and August, 1.2 in June and November, and 1.0 in March, April, May,
  September and October; the weekday multiplier is 1.3 on Saturday (5) and Sunday (6), 1.1 on
  Friday (4) and 1.0 from Monday (0) to Thursday (3), and a weekday is always one of 0..6.\<close>

theorem C8_multiplier_tables:
  "(dt_month d = 12 \<longrightarrow> get_seasonal_multiplier d = 1.5) \<and>
   (dt_month d \<in> {1, 2} \<longrightarrow> get_seasonal_multiplier d = 0.7) \<and>
   (dt_month d \<in> {7, 8} \<longrightarrow> get_seasonal_multiplier d = 1.3) \<and>
   (dt_month d \<in> {6, 11} \<longrightarrow> get_seasonal_multiplier d = 1.2) \<and>
   (dt_month d \<in> {3, 4, 5, 9, 10} \<longrightarrow> get_seasonal_multiplier d = 1.0) \<and>
   (dt_weekday d \<in> {5, 6} \<longrightarrow> get_weekday_multiplier d = 1.3) \<and>
   (dt_weekday d = 4 \<longrightarrow> get_weekday_multiplier d = 1.1) \<and>
   (dt_weekday d \<in> {0, 1, 2, 3} \<longrightarrow> get_weekday_multiplier d = 1.0) \<and>
   dt_weekday d \<in> {0..6}"
  using dt_weekday_range[of d]
  by (auto simp: get_seasonal_multiplier_def get_weekday_multiplier_def Let_def)

lemma date_facts:
  "dt_month (mk_date 2024 12 25) = 12" "dt_weekday (mk_date 2024 12 25) = 2"
  "dt_month (mk_date 2025 1 3) = 1" "dt_weekday (mk_date 2025 1 3) = 4"
  "dt_month (mk_date 2025 7 5) = 7" "dt_weekday (mk_date 2025 7 5) = 5"
  "dt_month (mk_date 2025 6 8) = 6" "dt_weekday (mk_date 2025 6 8) = 6"
  "dt_month (mk_date 2024 3 5) = 3" "dt_weekday (mk_date 2024 3 5) = 1"
  by (simp_all add: calendar_defs)

theorem C8_multiplier_tables_witness:
  "get_seasonal_multiplier (mk_date 2024 12 25) = 1.5 \<and>
   get_weekday_multiplier (mk_date 2024 12 25) = 1.0 \<and>
   get_seasonal_multiplier (mk_date 2025 1 3) = 0.7 \<and>
   get_weekday_multiplier (mk_date 2025 1 3) = 1.1 \<and>
   get_seasonal_multiplier (mk_date 2025 7 5) = 1.3 \<and>
   get_weekday_multiplier (mk_date 2025 7 5) = 1.3 \<and>
   get_seasonal_multiplier (mk_date 2025 6 8) = 1.2 \<and>
   get_weekday_multiplier (mk_date 2025 6 8) = 1.3 \<and>
   get_seasonal_multiplier (mk_date 2024 3 5) = 1.0"
  using C8_multiplier_tables[of "mk_date 2024 12 25"] C8_multiplier_tables[of "mk_date 2025 1 3"]
    C8_multiplier_tables[of "mk_date 2025 7 5"] C8_multiplier_tables[of "mk_date 2025 6 8"]
    C8_multiplier_tables[of "mk_date 2024 3 5"]
  by (simp add: date_facts)

text \<open>The window that \<^verbatim>\<open>__init__\<close> builds is 730 whole days long when the two readings
  of the clock are less than a day apart.\<close>

lemma init_total_days:
  assumes "now1 \<le> now2" "now2 < now1 + us_per_day"
  shows "td_days (end_date (init now1 now2) - start_date (init now1 now2)) = 730"
proof -
  have "end_date (init now1 now2) - start_date (init now1 now2) = 730 * us_per_day + (now2 - now1)"
    by (simp add: init_def timedelta_def us_per_day_def)
  moreover have "0 \<le> now2 - now1" "now2 - now1 < us_per_day" using assms by auto
  ultimately show ?thesis
    by (simp add: td_days_def us_per_day_def)
qed

lemma td_days_mono: "a \<le> b \<Longrightarrow> td_days a \<le> td_days b"
  by (simp add: td_days_def us_per_day_def zdiv_mono1)

text \<open>Claim C9. On a window of at least one whole day, the trend multiplier of every date is
  1.0 + 0.5 * (days since the start / days of the window); it is exactly 1.0 at the start of
  the window, exactly 1.5 at its end, and it never decreases as the date advances.\<close>

theorem C9_trend_multiplier:
  assumes "0 < td_days (end_date g - start_date g)"
  shows "get_trend_multiplier g date =
           Inr (1.0 + 0.5 * (real_of_int (td_days (date - start_date g))
                             / real_of_int (td_days (end_date g - start_date g)))) \<and>
         get_trend_multiplier g (start_date g) = Inr 1.0 \<and>
         get_trend_multiplier g (end_date g) = Inr 1.5 \<and>
         (\<forall>d1 d2. d1 \<le> d2 \<longrightarrow>
            (\<exists>t1 t2. get_trend_multiplier g d1 = Inr t1 \<and> get_trend_multiplier g d2 = Inr t2
                      \<and> t1 \<le> t2))"
proof -
  let ?T = "td_days (end_date g - start_date g)"
  have T: "0 < real_of_int ?T" using assms by simp
  have form: "get_trend_multiplier g d =
      Inr (1.0 + 0.5 * (real_of_int (td_days (d - start_date g)) / real_of_int ?T))" for d
    using assms by (simp add: get_trend_multiplier_def Let_def)
  have zero: "td_days 0 = 0" by (simp add: td_days_def)
  have mono: "d1 \<le> d2 \<Longrightarrow>
      real_of_int (td_days (d1 - start_date g)) / real_of_int ?T
      \<le> real_of_int (td_days (d2 - start_date g)) / real_of_int ?T" for d1 d2
    using T td_days_mono[of "d1 - start_date g" "d2 - start_date g"]
    by (simp add: divide_right_mono)
  show ?thesis
    using form[of date] form[of "start_date g"] form[of "end_date g"] T zero
    by (auto simp: form dest: mono)
qed

theorem C9_trend_multiplier_witness:
  "get_trend_multiplier (init (mk_date 2026 11 4) (mk_date 2026 11 4)) (mk_date 2024 11 4) = Inr 1.0 \<and>
   get_trend_multiplier (init (mk_date 2026 11 4) (mk_date 2026 11 4)) (mk_date 2026 11 4) = Inr 1.5"
proof -
  let ?g = "init (mk_date 2026 11 4) (mk_date 2026 11 4)"
  have T: "td_days (end_date ?g - start_date ?g) = 730"
    by (rule init_total_days) (simp_all add: us_per_day_def)
  have s: "start_date ?g = mk_date 2024 11 4"
    by (simp add: init_def mk_date_def timedelta_def us_per_day_def calendar_defs)
  have e: "end_date ?g = mk_date 2026 11 4" by (simp add: init_def)
  show ?thesis using C9_trend_multiplier[of ?g "mk_date 2024 11 4"] T s e
    by (simp add: td_days_def)
qed








lemma g_demo_start: "start_date g_demo = mk_date 2024 3 5"
  by (simp add: g_demo_def init_def mk_date_def timedelta_def us_per_day_def calendar_defs)

lemma g_demo_total_days: "td_days (end_date g_demo - start_date g_demo) = 730"
  unfolding g_demo_def by (rule init_total_days) (simp_all add: us_per_day_def)

lemma start_facts:
  "get_seasonal_multiplier (mk_date 2024 3 5) = 1"
  "get_weekday_multiplier (mk_date 2024 3 5) = 1"
  by (simp_all add: get_seasonal_multiplier_def get_weekday_multiplier_def calendar_defs)

lemma g_demo_trend_start: "get_trend_multiplier g_demo (mk_date 2024 3 5) = Inr 1"
  using g_demo_total_days g_demo_start
  by (simp add: get_trend_multiplier_def Let_def td_days_def)



subsection \<open>Metric backfill\<close>

lemma derive_energy_succeeds: "\<exists>energy rs'. derive_energy p rs = Inr (energy, rs')"
  by (simp add: derive_energy_def Let_def choice_def randint_def split_beta)

lemma ensure_unset_none:
  "rating p \<noteq> None \<Longrightarrow> energy_kwh_per_year p \<noteq> None \<Longrightarrow> ensure_product_metrics p w = (p, w)"
  by (auto simp: ensure_product_metrics_def)

lemma ensure_rating:
  "rating (fst (ensure_product_metrics p w)) =
     (case rating p of None \<Rightarrow> Some (fst (derive_rating p (rnd w))) | Some r \<Rightarrow> Some r)"
  using derive_energy_succeeds[of "p\<lparr>rating := Some (fst (derive_rating p (rnd w)))\<rparr>"
          "snd (derive_rating p (rnd w))"]
        derive_energy_succeeds[of p "rnd w"]
  by (cases "rating p"; cases "energy_kwh_per_year p")
     (auto simp: ensure_product_metrics_def Let_def split_beta)

lemma ensure_energy_set:
  "energy_kwh_per_year (fst (ensure_product_metrics p w)) \<noteq> None"
  using derive_energy_succeeds[of "p\<lparr>rating := Some (fst (derive_rating p (rnd w)))\<rparr>"
          "snd (derive_rating p (rnd w))"]
        derive_energy_succeeds[of p "rnd w"]
  by (cases "rating p"; cases "energy_kwh_per_year p")
     (auto simp: ensure_product_metrics_def Let_def split_beta)

lemma ensure_energy_kept:
  "energy_kwh_per_year p = Some e \<Longrightarrow> energy_kwh_per_year (fst (ensure_product_metrics p w)) = Some e"
  by (cases "rating p") (auto simp: ensure_product_metrics_def Let_def split_beta)

text \<open>The backfill on the seeded refrigerator, with every draw 0.5: rating 3.5 + 0.9 + 0.0 and
  400 kWh a year, saved to its row.\<close>

lemma lower_demo: "lower ''Heladeras'' = ''heladeras''"
  by code_simp

lemma sublist_demo: "sublist ''heladera'' ''heladeras''"
  by (simp add: sublist_Cons_right prefix_Cons)

lemma derive_rating_demo: "derive_rating p_demo (sconst (1 / 2)) = (22 / 5, sconst (1 / 2))"
  by (simp add: derive_rating_def p_demo_def uniform_def py_round2_def round_half_even_def Let_def)

lemma derive_energy_demo:
  "derive_energy (p_demo\<lparr>rating := Some (22 / 5)\<rparr>) (sconst (1 / 2)) = Inr (400, sconst (1 / 2))"
  by (simp add: derive_energy_def p_demo_def lower_demo sublist_demo randint_def Let_def)

lemma ensure_demo:
  "ensure_product_metrics p_demo w_demo =
     (p_demo\<lparr>rating := Some (22 / 5), energy_kwh_per_year := Some 400\<rparr>,
      w_demo\<lparr>db := db_demo\<lparr>product_rows :=
        [1 \<mapsto> p_demo\<lparr>rating := Some (22 / 5), energy_kwh_per_year := Some 400,
                       popularity := None\<rparr>]\<rparr>\<rparr>)"
proof -
  have r: "rating p_demo = None" "energy_kwh_per_year p_demo = None" "pk p_demo = 1"
    by (simp_all add: p_demo_def)
  show ?thesis
    by (simp add: ensure_product_metrics_def r w_demo_def derive_rating_demo derive_energy_demo
        save_product_def db_demo_def)
qed

text \<open>Claim C7. \<^verbatim>\<open>_ensure_product_metrics\<close> never overwrites a rating or an energy estimate
  that is set; after one call both are set; and a second call on the same instance is a no-op:
  it returns the instance and the world as they are (no draw, no save), whatever the random
  source and the coming faults are.\<close>

theorem C7_ensure_metrics_idempotent:
  "(rating p = Some r \<longrightarrow> rating (fst (ensure_product_metrics p w)) = Some r) \<and>
   (energy_kwh_per_year p = Some e \<longrightarrow>
      energy_kwh_per_year (fst (ensure_product_metrics p w)) = Some e) \<and>
   rating (fst (ensure_product_metrics p w)) \<noteq> None \<and>
   energy_kwh_per_year (fst (ensure_product_metrics p w)) \<noteq> None \<and>
   ensure_product_metrics (fst (ensure_product_metrics p w)) w'
     = (fst (ensure_product_metrics p w), w')"
proof -
  let ?p1 = "fst (ensure_product_metrics p w)"
  have r: "rating ?p1 \<noteq> None" by (simp add: ensure_rating split: option.splits)
  have e: "energy_kwh_per_year ?p1 \<noteq> None" by (rule ensure_energy_set)
  show ?thesis using r e ensure_unset_none[OF r e, of w']
    by (auto simp: ensure_rating ensure_energy_kept)
qed

theorem C7_ensure_metrics_idempotent_witness:
  "rating (fst (ensure_product_metrics p_demo w_demo)) = Some (22 / 5) \<and>
   energy_kwh_per_year (fst (ensure_product_metrics p_demo w_demo)) = Some 400 \<and>
   ensure_product_metrics (p_demo\<lparr>rating := Some (22 / 5), energy_kwh_per_year := Some 400\<rparr>) w_demo
     = (p_demo\<lparr>rating := Some (22 / 5), energy_kwh_per_year := Some 400\<rparr>, w_demo) \<and>
   rating (fst (ensure_product_metrics
       (p_demo\<lparr>rating := Some (22 / 5), energy_kwh_per_year := Some 400\<rparr>) (w_demo\<lparr>rnd := sconst 0\<rparr>)))
     = Some (22 / 5) \<and>
   energy_kwh_per_year (fst (ensure_product_metrics
       (p_demo\<lparr>rating := Some (22 / 5), energy_kwh_per_year := Some 400\<rparr>) (w_demo\<lparr>rnd := sconst 0\<rparr>)))
     = Some 400"
  using C7_ensure_metrics_idempotent[of p_demo "22 / 5" w_demo 400 w_demo]
    C7_ensure_metrics_idempotent[of "p_demo\<lparr>rating := Some (22 / 5), energy_kwh_per_year := Some 400\<rparr>"
      "22 / 5" "w_demo\<lparr>rnd := sconst 0\<rparr>" 400 w_demo]
  by (simp add: ensure_demo)

text \<open>Claim C10. \<^verbatim>\<open>_ensure_product_metrics\<close> changes no field of the instance other than
  \<open>rating\<close> and \<open>energy_kwh_per_year\<close>; in the database it touches no order, no line item and
  no row of another product, and the row of this product is either left alone or becomes the
  instance; when both metrics were set there is no save at all: instance and world (database,
  random source, coming faults) come back unchanged.\<close>

theorem C10_ensure_metrics_frame:
  "(let (p', w') = ensure_product_metrics p w
    in p' = p\<lparr>rating := rating p', energy_kwh_per_year := energy_kwh_per_year p'\<rparr> \<and>
       orders (db w') = orders (db w) \<and> order_items (db w') = order_items (db w) \<and>
       (\<forall>k. k \<noteq> pk p \<longrightarrow> product_rows (db w') k = product_rows (db w) k) \<and>
       (product_rows (db w') (pk p) = product_rows (db w) (pk p) \<or>
        product_rows (db w') (pk p) = Some (p'\<lparr>popularity := None\<rparr>))) \<and>
   (rating p \<noteq> None \<and> energy_kwh_per_year p \<noteq> None \<longrightarrow> ensure_product_metrics p w = (p, w))"
  using derive_energy_succeeds[of "p\<lparr>rating := Some (fst (derive_rating p (rnd w)))\<rparr>"
          "snd (derive_rating p (rnd w))"]
        derive_energy_succeeds[of p "rnd w"]
  by (cases "rating p"; cases "energy_kwh_per_year p")
     (auto simp: ensure_product_metrics_def Let_def split_beta save_product_def)

theorem C10_ensure_metrics_frame_witness:
  "ensure_product_metrics (p_demo\<lparr>rating := Some 4, energy_kwh_per_year := Some 300\<rparr>) w_demo
     = (p_demo\<lparr>rating := Some 4, energy_kwh_per_year := Some 300\<rparr>, w_demo) \<and>
   fst (ensure_product_metrics p_demo w_demo)
     = p_demo\<lparr>rating := Some (22 / 5), energy_kwh_per_year := Some 400\<rparr> \<and>
   orders (db (snd (ensure_product_metrics p_demo w_demo))) = orders (db w_demo)"
proof -
  have a: "ensure_product_metrics (p_demo\<lparr>rating := Some 4, energy_kwh_per_year := Some 300\<rparr>) w_demo
     = (p_demo\<lparr>rating := Some 4, energy_kwh_per_year := Some 300\<rparr>, w_demo)"
    using C10_ensure_metrics_frame[of "p_demo\<lparr>rating := Some 4, energy_kwh_per_year := Some 300\<rparr>" w_demo]
    by simp
  have b: "orders (db (snd (ensure_product_metrics p_demo w_demo))) = orders (db w_demo)"
    using C10_ensure_metrics_frame[of p_demo w_demo] by (simp add: split_beta)
  show ?thesis using a b by (simp add: ensure_demo)
qed

subsection \<open>Weighted sampling\<close>

declare bisect.simps [simp del]

lemma bisect_bounds: "lo \<le> hi \<Longrightarrow> lo \<le> bisect a x lo hi \<and> bisect a x lo hi \<le> hi"
proof (induction a x lo hi rule: bisect.induct)
  case (1 a x lo hi)
  show ?case
  proof (cases "lo < hi")
    case False
    with "1.prems" show ?thesis by (subst bisect.simps, subst (2) bisect.simps) simp
  next
    case True
    let ?mid = "(lo + hi) div 2"
    have m: "lo \<le> ?mid" "?mid < hi" using True by auto
    show ?thesis
    proof (cases "x < a ! ?mid")
      case True
      with "1.IH"(1)[OF \<open>lo < hi\<close> refl True] m \<open>lo < hi\<close> show ?thesis
        by (subst bisect.simps, subst (2) bisect.simps) (simp add: Let_def)
    next
      case False
      with "1.IH"(2)[OF \<open>lo < hi\<close> refl False] m \<open>lo < hi\<close> show ?thesis
        by (subst bisect.simps, subst (2) bisect.simps) (simp add: Let_def)
    qed
  qed
qed

lemma length_accumulate_from: "length (accumulate_from acc ws) = length ws"
  by (induction ws arbitrary: acc) auto

lemma accumulate_from_Nil_iff: "accumulate_from acc ws = [] \<longleftrightarrow> ws = []"
  by (cases ws) simp_all

lemma last_accumulate_from:
  "ws \<noteq> [] \<Longrightarrow> last (accumulate_from acc ws) = acc + sum_list ws"
proof (induction ws arbitrary: acc)
  case Nil
  then show ?case by simp
next
  case (Cons w ws)
  show ?case
  proof (cases "ws = []")
    case True
    then show ?thesis by simp
  next
    case False
    with Cons.IH[of "acc + w"] show ?thesis
      by (simp add: accumulate_from_Nil_iff add.assoc)
  qed
qed

lemma accumulate_Nil_iff: "accumulate ws = [] \<longleftrightarrow> ws = []"
  by (cases ws) (simp_all add: accumulate_def)

text \<open>The outcome of \<open>choices\<close>, case by case.\<close>

lemma choices_cases:
  "choices population weights k rs =
     (if length weights \<noteq> length population then Inl ValueError
      else if population = [] then Inl IndexError
      else if sum_list weights \<le> 0 then Inl ValueError
      else Inr (map (\<lambda>r. population ! bisect (accumulate weights) (r * sum_list weights) 0
                                           (length population - 1)) (stake k rs),
                sdrop k rs))"
proof (cases "weights = []")
  case True
  then show ?thesis by (auto simp: choices_def accumulate_def Let_def)
next
  case False
  then have "last (accumulate weights) = sum_list weights"
    by (simp add: accumulate_def last_accumulate_from)
  with False show ?thesis
    by (auto simp: choices_def Let_def accumulate_def length_accumulate_from
        accumulate_from_Nil_iff)
qed

lemma choices_elems:
  assumes "choices population weights k rs = Inr (xs, rs')"
  shows "length xs = k \<and> set xs \<subseteq> set population \<and> rs' = sdrop k rs"
proof -
  from assms have ne: "population \<noteq> []" and
    xs: "xs = map (\<lambda>r. population ! bisect (accumulate weights) (r * sum_list weights) 0
                                           (length population - 1)) (stake k rs)"
    and rs: "rs' = sdrop k rs"
    by (auto simp: choices_cases split: if_splits)
  have "bisect (accumulate weights) x 0 (length population - 1) < length population" for x
    using bisect_bounds[of 0 "length population - 1" "accumulate weights" x] ne
    by (cases population) auto
  then show ?thesis using xs rs by auto
qed

lemma choices_literal_ok:
  assumes "population \<noteq> []" "length weights = length population" "0 < sum_list weights"
  shows "\<exists>xs. choices population weights k rs = Inr (xs, sdrop k rs)"
  using assms by (simp add: choices_cases)

lemma order_lines_ok:
  assumes "\<forall>i \<in> set selected. i < length ps"
  shows "\<exists>items rs'. order_lines ps selected rs = Inr (items, rs') \<and>
           map item_product items = selected \<and>
           (\<forall>it \<in> set items. item_product it < length ps \<and>
              item_quantity it \<in> {1, 2, 3} \<and>
              item_price it = price (ps ! item_product it))"
  using assms
proof (induction selected arbitrary: rs)
  case Nil
  then show ?case by simp
next
  case (Cons i selected)
  obtain qs where q: "choices [1, 2, 3 :: int] [0.7, 0.2, 0.1] 1 rs = Inr (qs, sdrop 1 rs)"
    using choices_literal_ok[of "[1, 2, 3 :: int]" "[0.7, 0.2, 0.1]" 1 rs] by auto
  from choices_elems[OF q] have "length qs = 1" "set qs \<subseteq> {1, 2, 3}" by auto
  then have q0: "qs ! 0 \<in> {1, 2, 3}" by (cases qs) auto
  from Cons.IH[of "sdrop 1 rs"] Cons.prems obtain items rs' where
    r: "order_lines ps selected (sdrop 1 rs) = Inr (items, rs')"
      "map item_product items = selected"
      "\<forall>it \<in> set items. item_product it < length ps \<and>
              item_quantity it \<in> {1, 2, 3} \<and>
              item_price it = price (ps ! item_product it)"
    by auto
  show ?case using q q0 r Cons.prems by auto
qed

lemma bisect_sorted:
  assumes "sorted a" "hi \<le> length a" "lo \<le> hi"
  shows "(\<forall>j. lo \<le> j \<and> j < bisect a x lo hi \<longrightarrow> a ! j \<le> x) \<and>
         (\<forall>j. bisect a x lo hi \<le> j \<and> j < hi \<longrightarrow> x < a ! j)"
  using assms
proof (induction a x lo hi rule: bisect.induct)
  case (1 a x lo hi)
  show ?case
  proof (cases "lo < hi")
    case False
    then have "bisect a x lo hi = lo" by (subst bisect.simps) simp
    with False show ?thesis by auto
  next
    case True
    let ?mid = "(lo + hi) div 2"
    have m: "lo \<le> ?mid" "?mid < hi" using True by auto
    show ?thesis
    proof (cases "x < a ! ?mid")
      case lt: True
      have eq: "bisect a x lo hi = bisect a x lo ?mid"
        using True lt by (subst bisect.simps) (simp add: Let_def)
      have ih: "(\<forall>j. lo \<le> j \<and> j < bisect a x lo ?mid \<longrightarrow> a ! j \<le> x) \<and>
         (\<forall>j. bisect a x lo ?mid \<le> j \<and> j < ?mid \<longrightarrow> x < a ! j)"
        using "1.IH"(1)[OF True refl lt] "1.prems" m by simp
      have up: "x < a ! j" if "?mid \<le> j" "j < hi" for j
      proof -
        have "a ! ?mid \<le> a ! j" using that "1.prems" by (intro sorted_nth_mono) auto
        with lt show ?thesis by simp
      qed
      show ?thesis unfolding eq using ih up by (metis not_le_imp_less)
    next
      case ge: False
      have eq: "bisect a x lo hi = bisect a x (?mid + 1) hi"
        using True ge by (subst bisect.simps) (simp add: Let_def)
      have ih: "(\<forall>j. ?mid + 1 \<le> j \<and> j < bisect a x (?mid + 1) hi \<longrightarrow> a ! j \<le> x) \<and>
         (\<forall>j. bisect a x (?mid + 1) hi \<le> j \<and> j < hi \<longrightarrow> x < a ! j)"
        using "1.IH"(2)[OF True refl ge] "1.prems" m by simp
      have low: "a ! j \<le> x" if "j \<le> ?mid" for j
      proof -
        have "a ! j \<le> a ! ?mid" using that "1.prems" m by (intro sorted_nth_mono) auto
        with ge show ?thesis by simp
      qed
      show ?thesis unfolding eq using ih low
        by (metis Suc_eq_plus1 not_less_eq_eq)
    qed
  qed
qed

lemma nth_accumulate_from:
  "j < length ws \<Longrightarrow> accumulate_from acc ws ! j = acc + sum_list (take (Suc j) ws)"
proof (induction ws arbitrary: acc j)
  case Nil
  then show ?case by simp
next
  case (Cons w ws)
  then show ?case by (cases j) (simp_all add: add.assoc)
qed

lemma sorted_accumulate_from:
  "\<forall>w \<in> set ws. 0 \<le> w \<Longrightarrow> sorted (accumulate_from acc ws) \<and>
     (\<forall>c \<in> set (accumulate_from acc ws). acc \<le> c)"
proof (induction ws arbitrary: acc)
  case Nil
  then show ?case by simp
next
  case (Cons w ws)
  from Cons.IH[of "acc + w"] Cons.prems
  have "sorted (accumulate_from (acc + w) ws)"
    "\<forall>c \<in> set (accumulate_from (acc + w) ws). acc + w \<le> c" by auto
  with Cons.prems show ?case by fastforce
qed

text \<open>With non-negative weights of positive total and a draw of [0, 1), the index that
  \<open>choices\<close> computes has a positive weight.\<close>

lemma bisect_positive_weight:
  assumes nonneg: "\<forall>w \<in> set ws. 0 \<le> w" and total: "0 < sum_list ws"
    and r: "0 \<le> r" "r < 1"
  shows "0 < ws ! bisect (accumulate ws) (r * sum_list ws) 0 (length ws - 1)"
proof -
  let ?cum = "accumulate ws" and ?x = "r * sum_list ws" and ?n = "length ws"
  let ?i = "bisect ?cum ?x 0 (?n - 1)"
  have ne: "ws \<noteq> []" using total by auto
  then have n: "0 < ?n" by simp
  have len: "length ?cum = ?n" by (simp add: accumulate_def length_accumulate_from)
  have srt: "sorted ?cum" using sorted_accumulate_from[OF nonneg, of 0] by (simp add: accumulate_def)
  have cum: "?cum ! j = sum_list (take (Suc j) ws)" if "j < ?n" for j
    using that by (simp add: accumulate_def nth_accumulate_from)
  have x: "0 \<le> ?x" "?x < sum_list ws" using r total by auto
  have ib: "?i \<le> ?n - 1" using bisect_bounds[of 0 "?n - 1" ?cum ?x] by simp
  have i: "?i < ?n" using ib n by arith
  have spec: "(\<forall>j. j < ?i \<longrightarrow> ?cum ! j \<le> ?x) \<and> (\<forall>j. ?i \<le> j \<and> j < ?n - 1 \<longrightarrow> ?x < ?cum ! j)"
    using bisect_sorted[OF srt, of "?n - 1" 0 ?x] len by simp
  have step: "sum_list (take (Suc j) ws) = sum_list (take j ws) + ws ! j" if "j < ?n" for j
    using that by (simp add: take_Suc_conv_app_nth)
  show ?thesis
  proof (rule ccontr)
    assume "\<not> 0 < ws ! ?i"
    moreover have "0 \<le> ws ! ?i" using nonneg i by simp
    ultimately have z: "ws ! ?i = 0" by simp
    have flat: "sum_list (take (Suc ?i) ws) = sum_list (take ?i ws)" using step[OF i] z by simp
    have below: "sum_list (take ?i ws) \<le> ?x"
    proof (cases "?i")
      case 0
      then show ?thesis using x by simp
    next
      case (Suc k)
      then have "k < ?i" by simp
      with spec have "?cum ! k \<le> ?x" by blast
      moreover have "k < ?n" using Suc i by simp
      ultimately show ?thesis using cum[of k] Suc by simp
    qed
    show False
    proof (cases "?i < ?n - 1")
      case True
      with spec have "?x < ?cum ! ?i" by blast
      with cum[OF i] flat below show False by simp
    next
      case False
      with ib have "Suc ?i = ?n" using n by simp
      then have "sum_list (take (Suc ?i) ws) = sum_list ws" by simp
      with flat below x show False by simp
    qed
  qed
qed

lemma unit_draws_sdrop: "unit_draws rs \<Longrightarrow> unit_draws (sdrop n rs)"
proof (induction n arbitrary: rs)
  case 0
  then show ?case by simp
next
  case (Suc n)
  have "unit_draws (stl rs)" using Suc.prems by (auto simp: unit_draws_def dest: stl_sset)
  from Suc.IH[OF this] show ?case by simp
qed

lemma unit_draws_stake: "unit_draws rs \<Longrightarrow> r \<in> set (stake n rs) \<Longrightarrow> 0 \<le> r \<and> r < 1"
proof (induction n arbitrary: rs)
  case 0
  then show ?case by simp
next
  case (Suc n)
  have t: "unit_draws (stl rs)" using Suc.prems(1) by (auto simp: unit_draws_def dest: stl_sset)
  have h: "0 \<le> shd rs \<and> shd rs < 1" using Suc.prems(1) by (simp add: unit_draws_def shd_sset)
  from Suc.prems(2) have "r = shd rs \<or> r \<in> set (stake n (stl rs))" by auto
  with h Suc.IH[OF t] show ?case by auto
qed

lemma popularity_weights_length: "length (popularity_weights ps) = length ps"
  by (simp add: popularity_weights_def)

lemma num_items_ok:
  "\<exists>ns. choices [1, 2, 3, 4 :: int] [0.5, 0.3, 0.15, 0.05] 1 rs = Inr (ns, sdrop 1 rs) \<and>
        ns ! 0 \<in> {1, 2, 3, 4}"
proof -
  obtain ns where q: "choices [1, 2, 3, 4 :: int] [0.5, 0.3, 0.15, 0.05] 1 rs = Inr (ns, sdrop 1 rs)"
    using choices_literal_ok[of "[1, 2, 3, 4 :: int]" "[0.5, 0.3, 0.15, 0.05]" 1 rs] by auto
  from choices_elems[OF q] have "length ns = 1" "set ns \<subseteq> {1, 2, 3, 4}" by auto
  then have "ns ! 0 \<in> {1, 2, 3, 4}" by (cases ns) auto
  with q show ?thesis by blast
qed

lemma generate_order_items_raises:
  assumes "ps \<noteq> []" "sum_list (popularity_weights ps) \<le> 0"
  shows "generate_order_items ps rs = Inl ValueError"
proof -
  obtain ns where "choices [1, 2, 3, 4 :: int] [0.5, 0.3, 0.15, 0.05] 1 rs = Inr (ns, sdrop 1 rs)"
    using num_items_ok[of rs] by blast
  then show ?thesis using assms
    by (simp add: generate_order_items_def Let_def choices_cases[of "[0..<length ps]"]
        popularity_weights_length)
qed

lemma generate_order_items_returns:
  assumes "ps \<noteq> []" "0 < sum_list (popularity_weights ps)"
  shows "\<exists>items rs'. generate_order_items ps rs = Inr (items, rs') \<and>
           1 \<le> length items \<and> length items \<le> 4 \<and>
           (\<forall>it \<in> set items. item_product it < length ps \<and>
              item_quantity it \<in> {1, 2, 3} \<and>
              item_price it = price (ps ! item_product it)) \<and>
           ((\<forall>w \<in> set (popularity_weights ps). 0 \<le> w) \<and> unit_draws rs \<longrightarrow>
              (\<forall>it \<in> set items. 0 < popularity_weights ps ! item_product it))"
proof -
  let ?ws = "popularity_weights ps" and ?n = "length ps"
  obtain ns where ns: "choices [1, 2, 3, 4 :: int] [0.5, 0.3, 0.15, 0.05] 1 rs = Inr (ns, sdrop 1 rs)"
    "ns ! 0 \<in> {1, 2, 3, 4}"
    using num_items_ok[of rs] by blast
  let ?k = "nat (ns ! 0)" and ?rs1 = "sdrop 1 rs"
  let ?sel = "map (\<lambda>r. [0..<?n] ! bisect (accumulate ?ws) (r * sum_list ?ws) 0
                           (length [0..<?n] - 1)) (stake ?k ?rs1)"
  have sel: "choices [0..<?n] ?ws ?k ?rs1 = Inr (?sel, sdrop ?k ?rs1)"
    using assms by (simp add: choices_cases popularity_weights_length)
  from choices_elems[OF sel] have sel_in: "\<forall>i \<in> set ?sel. i < ?n" and sel_len: "length ?sel = ?k"
    by auto
  from order_lines_ok[OF sel_in, of "sdrop ?k ?rs1"] obtain items rs' where
    ol: "order_lines ps ?sel (sdrop ?k ?rs1) = Inr (items, rs')"
      "map item_product items = ?sel"
      "\<forall>it \<in> set items. item_product it < ?n \<and> item_quantity it \<in> {1, 2, 3} \<and>
          item_price it = price (ps ! item_product it)"
    by blast
  have g: "generate_order_items ps rs = Inr (items, rs')"
    using ns(1) sel ol(1) by (simp add: generate_order_items_def Let_def)
  have k: "1 \<le> ?k" "?k \<le> 4" using ns(2) by auto
  have len: "length items = ?k"
    using arg_cong[OF ol(2), of length] sel_len by simp
  have pos: "\<forall>it \<in> set items. 0 < ?ws ! item_product it"
    if nonneg: "\<forall>w \<in> set ?ws. 0 \<le> w" and u: "unit_draws rs"
  proof
    fix it assume "it \<in> set items"
    then have "item_product it \<in> set ?sel" using ol(2) by (metis image_eqI set_map)
    then obtain r where r: "r \<in> set (stake ?k ?rs1)"
      and it: "item_product it = [0..<?n] ! bisect (accumulate ?ws) (r * sum_list ?ws) 0
                           (length [0..<?n] - 1)"
      by auto
    have r01: "0 \<le> r" "r < 1"
      using unit_draws_stake[OF unit_draws_sdrop[OF u, of 1] r] by auto
    let ?i = "bisect (accumulate ?ws) (r * sum_list ?ws) 0 (length ?ws - 1)"
    have p: "0 < ?ws ! ?i" by (rule bisect_positive_weight[OF nonneg assms(2) r01])
    have "?i < ?n"
      using bisect_bounds[of 0 "length ?ws - 1" "accumulate ?ws" "r * sum_list ?ws"] assms(1)
      by (cases ps) (auto simp: popularity_weights_length)
    then have "item_product it = ?i" using it by (simp add: popularity_weights_length)
    with p show "0 < ?ws ! item_product it" by simp
  qed
  show ?thesis using g k len ol(3) pos by auto
qed

lemma zero_weights_sum:
  "\<forall>p \<in> set ps. popularity p = Some 0 \<Longrightarrow> sum_list (popularity_weights ps) = 0"
  by (induction ps) (simp_all add: popularity_weights_def)

text \<open>Claim C6, as the code has it. The sampler hands the popularity weights to
  \<^verbatim>\<open>random.choices\<close> with no guard and no fallback. On a non-empty catalog: when every weight
  is zero (more generally, when the weights sum to at most zero) it raises ValueError and no
  basket is produced; when the weights sum to more than zero it returns a basket of 1 to 4
  lines, each with a product of the catalog, a quantity of 1..3 and that product's price; and
  with non-negative weights and draws of [0, 1) no line holds a product of weight zero.\<close>

theorem C6_no_uniform_fallback:
  assumes "ps \<noteq> []"
  shows "((\<forall>p \<in> set ps. popularity p = Some 0) \<longrightarrow>
            generate_order_items ps rs = Inl ValueError) \<and>
         (sum_list (popularity_weights ps) \<le> 0 \<longrightarrow>
            generate_order_items ps rs = Inl ValueError) \<and>
         (0 < sum_list (popularity_weights ps) \<longrightarrow>
            (\<exists>items rs'. generate_order_items ps rs = Inr (items, rs') \<and>
               1 \<le> length items \<and> length items \<le> 4 \<and>
               (\<forall>it \<in> set items. item_product it < length ps \<and>
                  item_quantity it \<in> {1, 2, 3} \<and>
                  item_price it = price (ps ! item_product it)) \<and>
               ((\<forall>w \<in> set (popularity_weights ps). 0 \<le> w) \<and> unit_draws rs \<longrightarrow>
                  (\<forall>it \<in> set items. 0 < popularity_weights ps ! item_product it))))"
proof (intro conjI impI)
  assume "\<forall>p \<in> set ps. popularity p = Some 0"
  then have "sum_list (popularity_weights ps) \<le> 0" by (simp add: zero_weights_sum)
  then show "generate_order_items ps rs = Inl ValueError"
    by (rule generate_order_items_raises[OF assms])
next
  assume "sum_list (popularity_weights ps) \<le> 0"
  then show "generate_order_items ps rs = Inl ValueError"
    by (rule generate_order_items_raises[OF assms])
next
  assume "0 < sum_list (popularity_weights ps)"
  then show "\<exists>items rs'. generate_order_items ps rs = Inr (items, rs') \<and>
               1 \<le> length items \<and> length items \<le> 4 \<and>
               (\<forall>it \<in> set items. item_product it < length ps \<and>
                  item_quantity it \<in> {1, 2, 3} \<and>
                  item_price it = price (ps ! item_product it)) \<and>
               ((\<forall>w \<in> set (popularity_weights ps). 0 \<le> w) \<and> unit_draws rs \<longrightarrow>
                  (\<forall>it \<in> set items. 0 < popularity_weights ps ! item_product it))"
    by (rule generate_order_items_returns[OF assms])
qed

text \<open>Claim C6 as stated fails: on a catalog of two products, both of weight zero, sampling
  raises instead of selecting uniformly.\<close>

theorem C6_zero_weights_counterexample:
  "generate_order_items [p_demo\<lparr>popularity := Some 0\<rparr>, p_demo\<lparr>pk := 2, popularity := Some 0\<rparr>]
     (sconst (1 / 2)) = Inl ValueError"
  by (rule generate_order_items_raises) (simp_all add: popularity_weights_def)

theorem C6_no_uniform_fallback_witness:
  "generate_order_items [p_demo\<lparr>popularity := Some 0\<rparr>] (sconst (1 / 2)) = Inl ValueError \<and>
   (\<exists>items rs'. generate_order_items [p_demo] (sconst (1 / 2)) = Inr (items, rs') \<and>
      1 \<le> length items \<and> length items \<le> 4 \<and>
      (\<forall>it \<in> set items. 0 < popularity_weights [p_demo] ! item_product it))"
proof -
  have u: "unit_draws (sconst (1 / 2))" by (simp add: unit_draws_def)
  have w: "popularity_weights [p_demo] = [19 / 20]"
    by (simp add: popularity_weights_def p_demo_def)
  have z: "\<forall>p \<in> set [p_demo\<lparr>popularity := Some 0\<rparr>]. popularity p = Some 0" by simp
  have a: "generate_order_items [p_demo\<lparr>popularity := Some 0\<rparr>] (sconst (1 / 2)) = Inl ValueError"
    by (rule C6_no_uniform_fallback[of "[p_demo\<lparr>popularity := Some 0\<rparr>]" "sconst (1 / 2)",
          THEN conjunct1, THEN mp, OF _ z]) simp
  have pos: "0 < sum_list (popularity_weights [p_demo])" by (simp add: w)
  have nn: "(\<forall>w \<in> set (popularity_weights [p_demo]). 0 \<le> w) \<and> unit_draws (sconst (1 / 2))"
    using u by (simp add: w)
  from C6_no_uniform_fallback[of "[p_demo]" "sconst (1 / 2)",
          THEN conjunct2, THEN conjunct2, THEN mp, OF _ pos]
  obtain items rs' where
    b: "generate_order_items [p_demo] (sconst (1 / 2)) = Inr (items, rs')"
       "1 \<le> length items" "length items \<le> 4"
       "(\<forall>w \<in> set (popularity_weights [p_demo]). 0 \<le> w) \<and> unit_draws (sconst (1 / 2)) \<longrightarrow>
          (\<forall>it \<in> set items. 0 < popularity_weights [p_demo] ! item_product it)"
    by blast
  from b(4) nn have "\<forall>it \<in> set items. 0 < popularity_weights [p_demo] ! item_product it"
    by (rule mp)
  with a b(1,2,3) show ?thesis by blast
qed

subsection \<open>The batch writer, step by step\<close>

lemma atomic_create_order_item:
  "atomic (create_order_item ord k q p) s =
     (if shd (faults s) then (Inl DatabaseError, s\<lparr>faults := stl (faults s)\<rparr>)
      else (Inr \<lparr>oi_order = o_pk ord, oi_product = k, oi_quantity = q, oi_price = p\<rparr>,
            s\<lparr>faults := stl (faults s),
              db := (db s)\<lparr>order_items := order_items (db s)
                 @ [\<lparr>oi_order = o_pk ord, oi_product = k, oi_quantity = q, oi_price = p\<rparr>]\<rparr>\<rparr>))"
  by (simp add: atomic_def create_order_item_def Let_def)

lemma atomic_create_order:
  "atomic (create_order now customer t) s =
     (if shd (faults s) then (Inl DatabaseError, s\<lparr>faults := stl (faults s)\<rparr>)
      else (Inr \<lparr>o_pk = next_order_pk (db s), o_customer = customer, total_price = t,
                 status = ''COMPLETED'', created_at = now, updated_at = now\<rparr>,
            s\<lparr>faults := stl (faults s),
              db := (db s)\<lparr>orders := orders (db s)
                 @ [\<lparr>o_pk = next_order_pk (db s), o_customer = customer, total_price = t,
                 status = ''COMPLETED'', created_at = now, updated_at = now\<rparr>],
                 next_order_pk := Suc (next_order_pk (db s))\<rparr>\<rparr>))"
  by (simp add: atomic_def create_order_def Let_def)

lemma snd_save_product:
  "snd (save_product p s) =
     (if shd (faults s) then s\<lparr>faults := stl (faults s)\<rparr>
      else s\<lparr>faults := stl (faults s),
             db := (db s)\<lparr>product_rows := (product_rows (db s))(pk p \<mapsto> p\<lparr>popularity := None\<rparr>)\<rparr>\<rparr>)"
  by (simp add: save_product_def)



text \<open>The three ways an iteration can go once the basket is drawn.\<close>

lemma persist_order_cases:
  "persist_order now customer items t order_date s =
     (if shd (faults s) then Inr (s\<lparr>faults := stl (faults s)\<rparr>)
      else if shd (stl (faults s)) then Inl DatabaseError
      else let ord = \<lparr>o_pk = next_order_pk (db s), o_customer = customer, total_price = t,
                       status = ''COMPLETED'', created_at = now, updated_at = now\<rparr>;
               s2 = s\<lparr>faults := stl (stl (faults s)),
                      db := (db s)\<lparr>next_order_pk := Suc (next_order_pk (db s)),
                         orders :=
                         map (\<lambda>x. if o_pk x = o_pk ord
                                   then x\<lparr>created_at := order_date, updated_at := order_date\<rparr>
                                   else x) (orders (db s) @ [ord])\<rparr>\<rparr>;
               s3 = create_items ord items s2
           in Inr (s3\<lparr>total_orders := total_orders s3 + 1,
                      total_revenue := total_revenue s3 + t\<rparr>))"
  by (simp add: persist_order_def atomic_create_order update_order_dates_def Let_def)





declare run_days.simps [simp del]


subsection \<open>Evaluating the sampler\<close>

lemma bisect_stop: "\<not> lo < hi \<Longrightarrow> bisect a x lo hi = lo"
  by (subst bisect.simps) simp

lemma bisect_left:
  "lo < hi \<Longrightarrow> x < a ! ((lo + hi) div 2) \<Longrightarrow> bisect a x lo hi = bisect a x lo ((lo + hi) div 2)"
  by (subst bisect.simps) (simp add: Let_def)

lemma bisect_right:
  "lo < hi \<Longrightarrow> \<not> x < a ! ((lo + hi) div 2)
   \<Longrightarrow> bisect a x lo hi = bisect a x ((lo + hi) div 2 + 1) hi"
  by (subst bisect.simps) (simp add: Let_def)

lemmas bisect_eval = bisect_stop bisect_left bisect_right

lemma choices_one:
  "choices population weights (Suc 0) rs =
     (if length weights \<noteq> length population then Inl ValueError
      else if population = [] then Inl IndexError
      else if sum_list weights \<le> 0 then Inl ValueError
      else Inr ([population ! bisect (accumulate weights) (shd rs * sum_list weights) 0
                                           (length population - 1)], stl rs))"
  by (simp add: choices_cases)

lemma num_items_0: "choices [1, 2, 3, 4 :: int] [1 / 2, 3 / 10, 3 / 20, 1 / 20] (Suc 0) (0 ## rs) = Inr ([1], rs)"
  by (simp add: choices_one accumulate_def bisect_eval)

lemma quantity_0: "choices [1, 2, 3 :: int] [7 / 10, 1 / 5, 1 / 10] (Suc 0) (0 ## rs) = Inr ([1], rs)"
  by (simp add: choices_one accumulate_def bisect_eval)

lemma quantity_95: "choices [1, 2, 3 :: int] [7 / 10, 1 / 5, 1 / 10] (Suc 0) (19 / 20 ## rs) = Inr ([3], rs)"
  by (simp add: choices_one accumulate_def bisect_eval)

lemma select_single:
  assumes "0 < w"
  shows "choices [0 :: nat] [w] (Suc 0) (r ## rs) = Inr ([0], rs)"
  using assms by (simp add: choices_one accumulate_def bisect_eval)

text \<open>The basket drawn from a catalog of one product when the draws for the size and for the
  product are 0: one line, whose quantity the next draw decides.\<close>

lemma basket_single_0:
  assumes "0 < (case popularity p of None \<Rightarrow> 0.5 | Some w \<Rightarrow> w)"
  shows "generate_order_items [p] (0 ## 0 ## 0 ## rs) =
           Inr ([\<lparr>item_product = 0, item_quantity = 1, item_price = price p\<rparr>], rs)"
  using assms
  by (simp add: generate_order_items_def num_items_0 popularity_weights_def select_single
      quantity_0)

lemma basket_single_95:
  assumes "0 < (case popularity p of None \<Rightarrow> 0.5 | Some w \<Rightarrow> w)"
  shows "generate_order_items [p] (0 ## 0 ## 0.95 ## rs) =
           Inr ([\<lparr>item_product = 0, item_quantity = 3, item_price = price p\<rparr>], rs)"
  using assms
  by (simp add: generate_order_items_def num_items_0 popularity_weights_def select_single
      quantity_95)

subsection \<open>Runs in which the persistence layer stops answering\<close>


lemma choice_nonempty: "cs \<noteq> [] \<Longrightarrow> \<exists>c. choice cs rs = Inr (c, stl rs)"
  by (simp add: choice_def)

text \<open>When the creation of the header raises, the iteration returns normally and leaves the
  database, the instances and the counters as they were.\<close>

lemma process_order_skip:
  assumes "shd (faults s)" "customers \<noteq> []" "products s \<noteq> []"
    "0 < sum_list (popularity_weights (products s))"
  shows "\<exists>rs. process_order now customers d s = Inr (s\<lparr>rnd := rs, faults := stl (faults s)\<rparr>)"
proof -
  obtain c where c: "choice customers (rnd s) = Inr (c, stl (rnd s))"
    using choice_nonempty[OF assms(2)] by blast
  obtain items rs2 where g: "generate_order_items (products s) (stl (rnd s)) = Inr (items, rs2)"
    using generate_order_items_returns[OF assms(3,4)] by blast
  have "process_order now customers d s =
      Inr (s\<lparr>rnd := stl (stl rs2), faults := stl (faults s)\<rparr>)"
    using assms(1) by (simp add: process_order_def c g Let_def randint_def persist_order_cases)
  then show ?thesis by blast
qed




subsection \<open>The summary\<close>





subsection \<open>Concrete runs\<close>

lemma process_order_eval:
  assumes "choice customers (rnd s) = Inr (c, rs1)"
    "generate_order_items (products s) rs1 = Inr (items, rs2)"
  shows "process_order now customers d s =
     persist_order now c items (sum_list (map line_amount items))
       (d + timedelta 0 (fst (randint 8 20 rs2)) (fst (randint 0 59 (stl rs2))))
       (s\<lparr>rnd := stl (stl rs2)\<rparr>)"
  using assms by (simp add: process_order_def Let_def randint_def)

lemma choice_single: "choice [c] (r ## rs) = Inr ([c] ! nat \<lfloor>r\<rfloor>, rs)"
  by (simp add: choice_def)

text \<open>A transaction on a catalog of one product, with draws 0 (one line of quantity 1, at
  08:00) and no fault: the header, the line and the lowered stock are all persisted.\<close>

lemma first_order_ok:
  assumes "0 < (case popularity p of None \<Rightarrow> 0.5 | Some w \<Rightarrow> w)" "1 \<le> stock p"
  shows "process_order now [c] d
           \<lparr>db = db_with p, rnd = 0 ## 0 ## 0 ## 0 ## 0 ## 0 ## rs,
            faults = False ## False ## False ## False ## fs,
            products = [p], total_orders = n, total_revenue = t\<rparr> =
         Inr \<lparr>db = \<lparr>orders = [\<lparr>o_pk = 1, o_customer = c, total_price = price p,
                                 status = ''COMPLETED'', created_at = d + timedelta 0 8 0,
                                 updated_at = d + timedelta 0 8 0\<rparr>],
                      order_items = [\<lparr>oi_order = 1, oi_product = pk p, oi_quantity = 1,
                                      oi_price = price p\<rparr>],
                      product_rows = [pk p \<mapsto> p\<lparr>stock := stock p - 1, popularity := None\<rparr>],
                      next_order_pk = 2\<rparr>,
               rnd = rs, faults = fs,
               products = [p\<lparr>stock := stock p - 1\<rparr>],
               total_orders = n + 1, total_revenue = t + price p\<rparr>"
proof -
  let ?s = "\<lparr>db = db_with p, rnd = 0 ## 0 ## 0 ## 0 ## 0 ## 0 ## rs,
            faults = False ## False ## False ## False ## fs,
            products = [p], total_orders = n, total_revenue = t\<rparr>"
  have c: "choice [c] (rnd ?s) = Inr (c, 0 ## 0 ## 0 ## 0 ## 0 ## rs)"
    by (simp add: choice_single)
  have g: "generate_order_items (products ?s) (0 ## 0 ## 0 ## 0 ## 0 ## rs) =
      Inr ([\<lparr>item_product = 0, item_quantity = 1, item_price = price p\<rparr>], 0 ## 0 ## rs)"
    using basket_single_0[OF assms(1), of "0 ## 0 ## rs"] by simp
  show ?thesis
    unfolding process_order_eval[OF c g]
    using assms(2)
    by (simp add: persist_order_cases db_with_def Let_def randint_def line_amount_def
        create_item_def atomic_create_order_item snd_save_product timedelta_def)
qed

declare bit_length.simps [simp del]

lemma bit_length_19: "bit_length 19 = 5"
  by code_simp

lemma float_1999: "float_of_decimal (1999 / 100) = 5626684784446013 / 281474976710656"
  by (simp add: float_of_decimal_def floor_log2_def bit_length_19 pow2_def round_half_even_def
      Let_def of_rat_divide)

lemma float_1999_inexact: "float_of_decimal (1999 / 100) \<noteq> real_of_rat (1999 / 100)"
  by (simp add: float_1999 of_rat_divide)

lemma g_demo_end: "end_date g_demo = mk_date 2026 3 5"
  by (simp add: g_demo_def init_def)

lemma g_demo_window: "start_date g_demo \<le> end_date g_demo"
  by (simp add: g_demo_start g_demo_end mk_date_def us_per_day_def calendar_defs)

lemma count_demo:
  "generate_daily_sales_count g_demo (start_date g_demo) (0 ## 0 ## rs) = Inr (4, rs)"
  by (simp add: generate_daily_sales_count_def g_demo_start g_demo_trend_start start_facts
      randint_def uniform_def py_int_def Let_def)






lemma process_order_update_fault:
  assumes "choice customers (rnd s) = Inr (c, rs1)"
    "generate_order_items (products s) rs1 = Inr (items, rs2)"
    "\<not> shd (faults s)" "shd (stl (faults s))"
  shows "process_order now customers d s = Inl DatabaseError"
  unfolding process_order_eval[OF assms(1,2)] using assms(3,4)
  by (simp add: persist_order_cases)

text \<open>Claim C1, as the code has it. When the creation of a header raises, the iteration ends
  normally: the loop goes on, and the database, the instances and the counters are what they
  were, so no other transaction is touched. But the whole of \<^verbatim>\<open>generate_demo_data\<close> runs
  inside one atomic scope: whenever the call ends with an exception, the database is the one
  the call started with.\<close>

theorem C1_header_isolated_run_atomic:
  "(shd (faults s) \<and> customers \<noteq> [] \<and> products s \<noteq> [] \<and>
      0 < sum_list (popularity_weights (products s)) \<longrightarrow>
      (\<exists>rs. process_order now customers d s = Inr (s\<lparr>rnd := rs, faults := stl (faults s)\<rparr>))) \<and>
   (fst (generate_demo_data g now clear_existing ps customers w) = Inl e \<longrightarrow>
      snd (generate_demo_data g now clear_existing ps customers w) = db w)"
proof (intro conjI impI)
  assume "shd (faults s) \<and> customers \<noteq> [] \<and> products s \<noteq> [] \<and>
      0 < sum_list (popularity_weights (products s))"
  then show "\<exists>rs. process_order now customers d s = Inr (s\<lparr>rnd := rs, faults := stl (faults s)\<rparr>)"
    using process_order_skip[of s customers now d] by blast
next
  assume "fst (generate_demo_data g now clear_existing ps customers w) = Inl e"
  then show "snd (generate_demo_data g now clear_existing ps customers w) = db w"
    by (cases "generate_demo_data_body g now clear_existing ps customers w")
       (simp_all add: generate_demo_data_def)
qed

text \<open>The run in which the first transaction is persisted whole and the timestamp update of
  the second one raises.\<close>

lemma run_c1:
  "generate_demo_data g_demo (mk_date 2026 3 5) False [p_demo] [7]
     (world_with p_demo [0, 0, 0, 0, 0, 0, 0, 0, 0, 0, 0, 0, 0, 0]
        [False, False, False, False, False, True]) =
   (Inl DatabaseError, db_with p_demo)"
proof -
  let ?now = "mk_date 2026 3 5"
  let ?s0 = "\<lparr>db = db_with p_demo,
            rnd = 0 ## 0 ## 0 ## 0 ## 0 ## 0 ## 0 ## 0 ## 0 ## 0 ## 0 ## 0 ## 0 ## 0 ## sconst 0,
            faults = False ## False ## False ## False ## False ## True ## sconst True,
            products = [p_demo], total_orders = 0, total_revenue = 0\<rparr>"
  have p: "0 < (case popularity p_demo of None \<Rightarrow> 0.5 | Some w \<Rightarrow> w)" "1 \<le> stock p_demo"
    by (simp_all add: p_demo_def)
  have c: "generate_daily_sales_count g_demo (start_date g_demo) (rnd ?s0)
      = Inr (4, 0 ## 0 ## 0 ## 0 ## 0 ## 0 ## 0 ## 0 ## 0 ## 0 ## 0 ## 0 ## sconst 0)"
    by (simp add: count_demo)
  define s1 where "s1 = \<lparr>db = \<lparr>orders = [\<lparr>o_pk = 1, o_customer = 7, total_price = price p_demo,
                                 status = ''COMPLETED'',
                                 created_at = start_date g_demo + timedelta 0 8 0,
                                 updated_at = start_date g_demo + timedelta 0 8 0\<rparr>],
                      order_items = [\<lparr>oi_order = 1, oi_product = pk p_demo, oi_quantity = 1,
                                      oi_price = price p_demo\<rparr>],
                      product_rows = [pk p_demo \<mapsto> p_demo\<lparr>stock := stock p_demo - 1,
                                                     popularity := None\<rparr>],
                      next_order_pk = 2\<rparr>,
               rnd = 0 ## 0 ## 0 ## 0 ## 0 ## 0 ## sconst 0, faults = False ## True ## sconst True,
               products = [p_demo\<lparr>stock := stock p_demo - 1\<rparr>],
               total_orders = 0 + 1, total_revenue = 0 + price p_demo\<rparr>"
  have o1: "process_order ?now [7] (start_date g_demo)
             (?s0\<lparr>rnd := 0 ## 0 ## 0 ## 0 ## 0 ## 0 ## 0 ## 0 ## 0 ## 0 ## 0 ## 0 ## sconst 0\<rparr>)
           = Inr s1"
    unfolding s1_def
    using first_order_ok[OF p, of ?now 7 "start_date g_demo"
        "0 ## 0 ## 0 ## 0 ## 0 ## 0 ## sconst 0" "False ## True ## sconst True" 0 0]
    by simp
  have p1: "0 < (case popularity (p_demo\<lparr>stock := stock p_demo - 1\<rparr>) of None \<Rightarrow> 0.5 | Some w \<Rightarrow> w)"
    by (simp add: p_demo_def)
  have o2: "process_order ?now [7] (start_date g_demo) s1 = Inl DatabaseError"
  proof (rule process_order_update_fault)
    show "choice [7] (rnd s1) = Inr (7, 0 ## 0 ## 0 ## 0 ## 0 ## sconst 0)"
      by (simp add: s1_def choice_single)
    show "generate_order_items (products s1) (0 ## 0 ## 0 ## 0 ## 0 ## sconst 0) =
        Inr ([\<lparr>item_product = 0, item_quantity = 1,
               item_price = price (p_demo\<lparr>stock := stock p_demo - 1\<rparr>)\<rparr>], 0 ## 0 ## sconst 0)"
      using basket_single_0[OF p1, of "0 ## 0 ## sconst 0"] by (simp add: s1_def)
    show "\<not> shd (faults s1)" "shd (stl (faults s1))" by (simp_all add: s1_def)
  qed
  have d: "process_day ?now [7] (start_date g_demo) (nat 4)
      (?s0\<lparr>rnd := 0 ## 0 ## 0 ## 0 ## 0 ## 0 ## 0 ## 0 ## 0 ## 0 ## 0 ## 0 ## sconst 0\<rparr>)
      = Inl DatabaseError"
  proof -
    show ?thesis using o1 o2 by (simp add: eval_nat_numeral)
  qed
  have r: "run_days g_demo ?now [7] (start_date g_demo) ?s0 = Inl DatabaseError"
    using g_demo_window c d by (subst run_days.simps) simp
  show ?thesis
    by (simp add: generate_demo_data_def generate_demo_data_body_def world_with_def r)
qed

text \<open>Claim C1 as stated fails: the first transaction of this run is persisted (order 1 is in
  the database after the first iteration), the timestamp update of the second transaction
  raises, and the call ends with the database it started with, in which there is no
  order.\<close>

theorem C1_outer_atomic_counterexample:
  "generate_demo_data g_demo (mk_date 2026 3 5) False [p_demo] [7]
     (world_with p_demo [0, 0, 0, 0, 0, 0, 0, 0, 0, 0, 0, 0, 0, 0]
        [False, False, False, False, False, True]) =
   (Inl DatabaseError, db_with p_demo) \<and>
   orders (db_with p_demo) = [] \<and>
   map o_pk (orders (db (projr (process_order (mk_date 2026 3 5) [7] (start_date g_demo)
      \<lparr>db = db_with p_demo,
       rnd = 0 ## 0 ## 0 ## 0 ## 0 ## 0 ## 0 ## 0 ## 0 ## 0 ## 0 ## 0 ## sconst 0,
       faults = False ## False ## False ## False ## False ## True ## sconst True,
       products = [p_demo], total_orders = 0, total_revenue = 0\<rparr>)))) = [1]"
proof -
  have p: "0 < (case popularity p_demo of None \<Rightarrow> 0.5 | Some w \<Rightarrow> w)" "1 \<le> stock p_demo"
    by (simp_all add: p_demo_def)
  show ?thesis
    using first_order_ok[OF p, of "mk_date 2026 3 5" 7 "start_date g_demo"
        "0 ## 0 ## 0 ## 0 ## 0 ## 0 ## sconst 0" "False ## True ## sconst True" 0 0]
    by (simp add: run_c1) (simp add: db_with_def)
qed

theorem C1_header_isolated_run_atomic_witness:
  "(\<exists>rs. process_order (mk_date 2026 3 5) [7] (start_date g_demo)
      \<lparr>db = db_with p_demo, rnd = sconst 0, faults = sconst True,
       products = [p_demo], total_orders = 0, total_revenue = 0\<rparr> =
     Inr \<lparr>db = db_with p_demo, rnd = rs, faults = sconst True,
       products = [p_demo], total_orders = 0, total_revenue = 0\<rparr>) \<and>
   snd (generate_demo_data g_demo (mk_date 2026 3 5) False [p_demo] [7]
     (world_with p_demo [0, 0, 0, 0, 0, 0, 0, 0, 0, 0, 0, 0, 0, 0]
        [False, False, False, False, False, True])) = db_with p_demo"
proof -
  let ?s = "\<lparr>db = db_with p_demo, rnd = sconst 0, faults = sconst True,
       products = [p_demo], total_orders = 0, total_revenue = 0 :: rat\<rparr>"
  have h: "shd (faults ?s) \<and> [7 :: nat] \<noteq> [] \<and> products ?s \<noteq> [] \<and>
      0 < sum_list (popularity_weights (products ?s))"
    by (simp add: popularity_weights_def p_demo_def)
  have a: "\<exists>rs. process_order (mk_date 2026 3 5) [7] (start_date g_demo) ?s =
     Inr (?s\<lparr>rnd := rs, faults := stl (faults ?s)\<rparr>)"
    by (rule C1_header_isolated_run_atomic[of ?s "[7]" "mk_date 2026 3 5" "start_date g_demo",
          THEN conjunct1, THEN mp, OF h])
  have b: "snd (generate_demo_data g_demo (mk_date 2026 3 5) False [p_demo] [7]
     (world_with p_demo [0, 0, 0, 0, 0, 0, 0, 0, 0, 0, 0, 0, 0, 0]
        [False, False, False, False, False, True])) = db (world_with p_demo [0, 0, 0, 0, 0, 0, 0, 0, 0, 0, 0, 0, 0, 0]
        [False, False, False, False, False, True])"
  proof -
    have "fst (generate_demo_data g_demo (mk_date 2026 3 5) False [p_demo] [7]
     (world_with p_demo [0, 0, 0, 0, 0, 0, 0, 0, 0, 0, 0, 0, 0, 0]
        [False, False, False, False, False, True])) = Inl DatabaseError"
      by (simp add: run_c1)
    from C1_header_isolated_run_atomic[THEN conjunct2, THEN mp, OF this] show ?thesis .
  qed
  from a b show ?thesis by (simp add: world_with_def)
qed

end
